theory Spec2Isabelle
  imports Main
begin

section \<open>Strings as Python sees them\<close>

text \<open>
  A Python \<open>str\<close> is a sequence of code points. The text of a document is modelled as a
  list of code points (natural numbers), so that every string can be written. The fixed
  strings of the program (keywords, labels, messages, prompt templates) and the words and
  sentences handed back by the models are 8-bit strings, read as the code points
  U+0000 .. U+00FF; \<open>ascii\<close> reads such a string as text.

  The character classes of CPython (\<open>str.isspace\<close>, \<open>str.lower\<close>, the class \<open>\w\<close> of the
  \<open>re\<close> module) are written out on U+0000 .. U+00FF. Above that range the \<open>\w\<close> class is a
  table of the runtime's Unicode database, not part of the program: it is the parameter
  \<open>w\<close> of \<open>is_word_char\<close>. Only the four code points above U+00FF that a pattern of the
  program can match (the letters U+0130, U+0131, U+017F and U+212A, see \<open>ci_eq\<close>) are written
  out: they are word characters.
\<close>

type_synonym str = "nat list"

definition ascii :: "string \<Rightarrow> str" where
  "ascii s = map of_char s"

definition code :: "char \<Rightarrow> nat" where
  "code c = of_char c"

definition newline :: nat where
  "newline = 10"

definition newline_char :: char where
  "newline_char = CHR 0x0A"

definition is_space :: "char \<Rightarrow> bool" where
  "is_space c = (let n = code c in
     (9 \<le> n \<and> n \<le> 13) \<or> (28 \<le> n \<and> n \<le> 32) \<or> n = 133 \<or> n = 160)"

definition latin1_word :: "nat \<Rightarrow> bool" where
  "latin1_word n =
     ((48 \<le> n \<and> n \<le> 57) \<or> (65 \<le> n \<and> n \<le> 90) \<or> n = 95 \<or> (97 \<le> n \<and> n \<le> 122)
      \<or> n = 170 \<or> (178 \<le> n \<and> n \<le> 179) \<or> n = 181 \<or> (185 \<le> n \<and> n \<le> 186)
      \<or> (188 \<le> n \<and> n \<le> 190) \<or> (192 \<le> n \<and> n \<le> 214) \<or> (216 \<le> n \<and> n \<le> 246)
      \<or> (248 \<le> n \<and> n \<le> 255))"

definition is_word_char :: "(nat \<Rightarrow> bool) \<Rightarrow> nat \<Rightarrow> bool" where
  "is_word_char w c =
     (if c < 256 then latin1_word c
      else c = 304 \<or> c = 305 \<or> c = 383 \<or> c = 8490 \<or> w c)"

definition lower_char :: "char \<Rightarrow> char" where
  "lower_char c = (let n = code c in
     if (65 \<le> n \<and> n \<le> 90) \<or> (192 \<le> n \<and> n \<le> 214) \<or> (216 \<le> n \<and> n \<le> 222)
     then char_of (n + 32) else c)"

definition lower :: "string \<Rightarrow> string" where
  "lower s = map lower_char s"

definition strip :: "string \<Rightarrow> string" where
  "strip s = rev (dropWhile is_space (rev (dropWhile is_space s)))"

definition startswith :: "'a list \<Rightarrow> 'a list \<Rightarrow> bool" where
  "startswith s p = (take (length p) s = p)"

definition endswith :: "'a list \<Rightarrow> 'a list \<Rightarrow> bool" where
  "endswith s p = (length p \<le> length s \<and> drop (length s - length p) s = p)"

text \<open>\<open>sep.join(xs)\<close>\<close>

fun join :: "'a list \<Rightarrow> 'a list list \<Rightarrow> 'a list" where
  "join sep [] = []"
| "join sep [x] = x"
| "join sep (x # y # ys) = x @ sep @ join sep (y # ys)"

text \<open>\<open>needle in s\<close> for strings: \<open>needle\<close> occurs as a contiguous run of \<open>s\<close>.\<close>

fun contains :: "'a list \<Rightarrow> 'a list \<Rightarrow> bool" where
  "contains [] needle = (needle = [])"
| "contains (c # cs) needle = (startswith (c # cs) needle \<or> contains cs needle)"

text \<open>
  \<open>s.replace(old, new)\<close> for a non-empty \<open>old\<close>: the occurrences are replaced from left
  to right without overlap. (The source only calls it with \<open>old = " ##"\<close>.)
\<close>

function replace :: "'a list \<Rightarrow> 'a list \<Rightarrow> 'a list \<Rightarrow> 'a list" where
  "replace s old new =
     (if s = [] then []
      else if old \<noteq> [] \<and> startswith s old then new @ replace (drop (length old) s) old new
      else hd s # replace (tl s) old new)"
  by pat_completeness auto
termination
  by (relation "measure (\<lambda>(s, old, new). length s)") auto

declare replace.simps [simp del]

text \<open>Splitting at line feeds, the inverse of joining with a line feed.\<close>

fun split_nl_acc :: "str \<Rightarrow> str \<Rightarrow> str list" where
  "split_nl_acc acc [] = [rev acc]"
| "split_nl_acc acc (c # cs) =
     (if c = newline then rev acc # split_nl_acc [] cs else split_nl_acc (c # acc) cs)"

definition split_nl :: "str \<Rightarrow> str list" where
  "split_nl s = split_nl_acc [] s"

text \<open>
  The place of paragraph \<open>i\<close> in the joined text: the lengths of the paragraphs before it,
  and one line feed after each of them.
\<close>

definition paragraph_offset :: "str list \<Rightarrow> nat \<Rightarrow> nat" where
  "paragraph_offset doc i = sum_list (map length (take i doc)) + i"

section \<open>Exceptions\<close>

datatype py_exn =
    ValueError string
  | RuntimeError string
  | AttributeError string
  | OtherException string

fun str_exn :: "py_exn \<Rightarrow> string" where
  "str_exn (ValueError m) = m"
| "str_exn (RuntimeError m) = m"
| "str_exn (AttributeError m) = m"
| "str_exn (OtherException m) = m"

section \<open>Document Reader\<close>

text \<open>
  \<open>docx.Document\<close> is the library's parser; a parsed document is the list of the texts
  of its paragraphs, in document order. \<open>read_docx\<close> (model2.py) and the body of
  \<open>read_docx_from_bytes\<close> (backend/app.py) append each paragraph text to a list and
  join the list with a line feed. In backend/app.py every exception of the parser or of
  the loop is replaced by \<open>ValueError("Could not read DOCX file.")\<close>.
\<close>

type_synonym document = "str list"
type_synonym bytes = "nat list"

fun collect_paragraphs :: "str list \<Rightarrow> document \<Rightarrow> str list" where
  "collect_paragraphs full_text [] = full_text"
| "collect_paragraphs full_text (para # paras) = collect_paragraphs (full_text @ [para]) paras"

definition read_docx :: "document \<Rightarrow> str" where
  "read_docx doc = join [newline] (collect_paragraphs [] doc)"

definition read_docx_from_bytes :: "(bytes \<Rightarrow> py_exn + document) \<Rightarrow> bytes \<Rightarrow> py_exn + str" where
  "read_docx_from_bytes Document docx_bytes =
     (case Document docx_bytes of
        Inl e \<Rightarrow> Inl (ValueError ''Could not read DOCX file.'')
      | Inr doc \<Rightarrow> Inr (read_docx doc))"

section \<open>Sensitive-Content Filter\<close>

text \<open>
  Each pattern of \<open>remove_sensitive_info\<close> (model2.py) has the shape
  \<open>\b(k1|k2|...)\b\<close>, compiled with \<open>re.IGNORECASE\<close>: a word boundary, an alternation
  of literal keywords tried in the order written, a word boundary. A pattern is modelled
  by the list of its keywords.

  \<open>\b\<close> holds at a position iff exactly one of the character before it and the character
  after it is a word character (the start and the end of the text count as non-word). The
  scan carries the flag \<open>pw\<close>: the character before the current position, in the text
  being scanned, is a word character.
\<close>

type_synonym pattern = "string list"

text \<open>
  A literal of a pattern against a code point of the text, under \<open>re.IGNORECASE\<close>. The
  patterns of the program are ASCII, and the definition is written for ASCII pattern
  characters. A letter matches its lower and upper case and the code points whose case
  folding is that letter: U+0130 and U+0131 for \<open>i\<close>, U+212A (Kelvin sign) for \<open>k\<close>,
  U+017F (long s) for \<open>s\<close>. A character that is not a letter matches itself only.
\<close>

definition ci_eq :: "char \<Rightarrow> nat \<Rightarrow> bool" where
  "ci_eq k c =
     (let n = code k; lo = (if 65 \<le> n \<and> n \<le> 90 then n + 32 else n)
      in if 97 \<le> lo \<and> lo \<le> 122
         then c = lo \<or> c + 32 = lo \<or> (lo = 105 \<and> (c = 304 \<or> c = 305))
              \<or> (lo = 107 \<and> c = 8490) \<or> (lo = 115 \<and> c = 383)
         else c = n)"

fun word_boundary :: "(nat \<Rightarrow> bool) \<Rightarrow> bool \<Rightarrow> str \<Rightarrow> bool" where
  "word_boundary w pw [] = pw"
| "word_boundary w pw (c # cs) = (pw \<noteq> is_word_char w c)"

text \<open>
  Matching a literal keyword at the head of the text, ignoring case: the result is the
  text after the match, with the flag for its last character.
\<close>

fun match_literal :: "(nat \<Rightarrow> bool) \<Rightarrow> string \<Rightarrow> bool \<Rightarrow> str \<Rightarrow> (bool \<times> str) option" where
  "match_literal w [] pw s = Some (pw, s)"
| "match_literal w (k # ks) pw [] = None"
| "match_literal w (k # ks) pw (c # cs) =
     (if ci_eq k c then match_literal w ks (is_word_char w c) cs else None)"

text \<open>One alternative between the two boundaries.\<close>

definition match_alternative ::
  "(nat \<Rightarrow> bool) \<Rightarrow> string \<Rightarrow> bool \<Rightarrow> str \<Rightarrow> (bool \<times> str) option" where
  "match_alternative w kw pw s =
     (if word_boundary w pw s then
        (case match_literal w kw pw s of
           None \<Rightarrow> None
         | Some (pw', rest) \<Rightarrow> if word_boundary w pw' rest then Some (pw', rest) else None)
      else None)"

text \<open>
  The pattern at the current position: the first alternative, in the order written, that
  matches with both boundaries (the engine backtracks into the next alternative when the
  closing boundary fails).
\<close>

fun match_pattern :: "(nat \<Rightarrow> bool) \<Rightarrow> pattern \<Rightarrow> bool \<Rightarrow> str \<Rightarrow> (bool \<times> str) option" where
  "match_pattern w [] pw s = None"
| "match_pattern w (kw # kws) pw s =
     (case match_alternative w kw pw s of
        Some r \<Rightarrow> Some r
      | None \<Rightarrow> match_pattern w kws pw s)"

text \<open>
  \<open>re.sub(pattern, "", text, flags=re.IGNORECASE)\<close>: the text is scanned from left to
  right; a match is dropped and the scan goes on after it, otherwise the character is
  kept. An empty match drops nothing and the character is kept.
\<close>

function re_sub :: "(nat \<Rightarrow> bool) \<Rightarrow> pattern \<Rightarrow> bool \<Rightarrow> str \<Rightarrow> str" where
  "re_sub w p pw [] = []"
| "re_sub w p pw (c # cs) =
     (case match_pattern w p pw (c # cs) of
        None \<Rightarrow> c # re_sub w p (is_word_char w c) cs
      | Some (pw', rest) \<Rightarrow>
          if length rest \<le> length cs then re_sub w p pw' rest
          else c # re_sub w p (is_word_char w c) cs)"
  by pat_completeness auto
termination
  by (relation "measure (\<lambda>(w, p, pw, s). length s)") auto

text \<open>\<open>re.search(pattern, text, flags=re.IGNORECASE) is not None\<close>\<close>

fun re_search :: "(nat \<Rightarrow> bool) \<Rightarrow> pattern \<Rightarrow> bool \<Rightarrow> str \<Rightarrow> bool" where
  "re_search w p pw [] = (match_pattern w p pw [] \<noteq> None)"
| "re_search w p pw (c # cs) =
     (match_pattern w p pw (c # cs) \<noteq> None \<or> re_search w p (is_word_char w c) cs)"

definition sensitive_keywords :: "pattern list" where
  "sensitive_keywords =
     [[''ethnicity'', ''race'', ''color'', ''religion'', ''gender'', ''age'', ''nationality'',
       ''marital status''],
      [''black'', ''white'', ''asian'', ''hispanic'', ''latino'', ''christian'', ''muslim'',
       ''jewish'', ''male'', ''female''],
      [''born on'', ''date of birth'', ''DOB'']]"

fun sub_all :: "(nat \<Rightarrow> bool) \<Rightarrow> pattern list \<Rightarrow> str \<Rightarrow> str" where
  "sub_all w [] text = text"
| "sub_all w (pattern # patterns) text = sub_all w patterns (re_sub w pattern False text)"

definition remove_sensitive_info :: "(nat \<Rightarrow> bool) \<Rightarrow> str \<Rightarrow> str" where
  "remove_sensitive_info w text = sub_all w sensitive_keywords text"

text \<open>
  The reading of the specification: a keyword of the taxonomy occurs in the text as a
  substring, ignoring case.
\<close>

definition taxonomy :: "string list" where
  "taxonomy = concat sensitive_keywords"

fun ci_prefix :: "string \<Rightarrow> str \<Rightarrow> bool" where
  "ci_prefix [] s = True"
| "ci_prefix (k # ks) [] = False"
| "ci_prefix (k # ks) (c # cs) = (ci_eq k c \<and> ci_prefix ks cs)"

fun ci_substring :: "string \<Rightarrow> str \<Rightarrow> bool" where
  "ci_substring kw [] = (kw = [])"
| "ci_substring kw (c # cs) = (ci_prefix kw (c # cs) \<or> ci_substring kw cs)"

definition keyword_survives :: "str \<Rightarrow> bool" where
  "keyword_survives text = list_ex (\<lambda>kw. ci_substring kw text) taxonomy"

text \<open>
  Well-formed keywords, for the proofs: a keyword is made of ASCII letters and single
  spaces, and starts and ends with a letter. The flag tells whether the keyword character
  before is a space (or the keyword starts here).
\<close>

definition is_ascii_letter :: "char \<Rightarrow> bool" where
  "is_ascii_letter k = (let n = code k in (65 \<le> n \<and> n \<le> 90) \<or> (97 \<le> n \<and> n \<le> 122))"

fun keyword_ok :: "bool \<Rightarrow> string \<Rightarrow> bool" where
  "keyword_ok b [] = (\<not> b)"
| "keyword_ok b (k # ks) =
     (if is_ascii_letter k then keyword_ok False ks
      else k = CHR '' '' \<and> \<not> b \<and> keyword_ok True ks)"

definition pattern_ok :: "pattern \<Rightarrow> bool" where
  "pattern_ok p = list_all (keyword_ok True) p"

text \<open>
  Wherever the first pattern matches in the text, the second one matches as well: the
  invariant under which a substitution with the second pattern leaves no match of the first.
\<close>

fun covered :: "(nat \<Rightarrow> bool) \<Rightarrow> pattern \<Rightarrow> pattern \<Rightarrow> bool \<Rightarrow> str \<Rightarrow> bool" where
  "covered w pA pB pw [] = True"
| "covered w pA pB pw (c # cs) =
     ((match_pattern w pA pw (c # cs) = None \<or> match_pattern w pB pw (c # cs) \<noteq> None)
      \<and> covered w pA pB (is_word_char w c) cs)"

section \<open>Entity Extractor\<close>

text \<open>
  \<open>extract_entities\<close> (model2.py). The token classifier \<open>ner_pipeline\<close> and the sentence
  splitter of \<open>nlp\<close> are models outside the repository: they are parameters. Of a
  classifier result only the keys \<open>entity\<close> and \<open>word\<close> are read.

  \<open>list(set(xs))\<close> lists the distinct elements of \<open>xs\<close> in the iteration order of a Python
  set, which depends on the hashes of the strings (randomised per process) and not on the
  order of \<open>xs\<close>. The order is the parameter \<open>list_set\<close>; \<open>set_order\<close> says what every such
  order satisfies.
\<close>

record ner_result =
  entity :: string
  word :: string

record entities =
  name :: "string list"
  organization :: "string list"
  skills :: "string list"
  education :: "string list"

definition set_order :: "(string list \<Rightarrow> string list) \<Rightarrow> bool" where
  "set_order list_set = (\<forall>xs. set (list_set xs) = set xs \<and> distinct (list_set xs))"

definition is_person :: "ner_result \<Rightarrow> bool" where
  "is_person e = (startswith (entity e) ''B-PER'' \<or> startswith (entity e) ''I-PER'')"

text \<open>
  The loop over the classifier results, with the lists \<open>entities["name"]\<close>,
  \<open>entities["organization"]\<close> and \<open>current_name\<close> as its state.
\<close>

fun ner_loop ::
  "ner_result list \<Rightarrow> string list \<Rightarrow> string list \<Rightarrow> string list \<Rightarrow> string list \<times> string list"
where
  "ner_loop [] names orgs current_name = (names, orgs)"
| "ner_loop (e # es) names orgs current_name =
     (let orgs' = (if startswith (entity e) ''B-ORG''
                   then orgs @ [replace (word e) '' ##'' ''''] else orgs)
      in if is_person e then ner_loop es names orgs' (current_name @ [word e])
         else if current_name \<noteq> []
         then ner_loop es (names @ [replace (join '' '' current_name) '' ##'' '''']) orgs' []
         else ner_loop es names orgs' current_name)"

definition any_keyword :: "string list \<Rightarrow> string \<Rightarrow> bool" where
  "any_keyword keywords sent_text = list_ex (\<lambda>keyword. contains (lower sent_text) keyword) keywords"

text \<open>The loop over the sentences, with \<open>entities["education"]\<close> and \<open>entities["skills"]\<close>.\<close>

fun sent_loop :: "string list \<Rightarrow> string list \<Rightarrow> string list \<Rightarrow> string list \<times> string list" where
  "sent_loop [] edu sk = (edu, sk)"
| "sent_loop (sent # sents) edu sk =
     sent_loop sents
       (if any_keyword [''education'', ''degree'', ''university'', ''college''] sent
        then edu @ [strip sent] else edu)
       (if any_keyword [''skills'', ''proficient'', ''expertise''] sent
        then sk @ [strip sent] else sk)"

definition extract_entities ::
  "('t \<Rightarrow> ner_result list) \<Rightarrow> ('t \<Rightarrow> string list) \<Rightarrow> (string list \<Rightarrow> string list)
    \<Rightarrow> 't \<Rightarrow> entities"
where
  "extract_entities ner_pipeline nlp_sents list_set text =
     (let (names, orgs) = ner_loop (ner_pipeline text) [] [] [];
          (edu, sk) = sent_loop (nlp_sents text) [] []
      in \<lparr> name = take 1 (list_set names),
           organization = list_set orgs,
           skills = list_set sk,
           education = list_set edu \<rparr>)"

text \<open>
  The reading of the specification: contiguous tokens of one kind, a begin tag followed by
  inside tags, are one candidate; its words are joined and the sub-word markers removed.
  \<open>merge_spans kind\<close> lists the candidates of a kind (\<open>PER\<close>, \<open>ORG\<close>) in text order.
\<close>

fun merge_spans :: "string \<Rightarrow> ner_result list \<Rightarrow> string list \<Rightarrow> string list" where
  "merge_spans kind [] current =
     (if current = [] then [] else [replace (join '' '' current) '' ##'' ''''])"
| "merge_spans kind (e # es) current =
     (if entity e = ''I-'' @ kind \<and> current \<noteq> [] then merge_spans kind es (current @ [word e])
      else (if current = [] then [] else [replace (join '' '' current) '' ##'' ''''])
           @ (if entity e = ''B-'' @ kind \<or> entity e = ''I-'' @ kind
              then merge_spans kind es [word e] else merge_spans kind es []))"

section \<open>Report Synthesizer\<close>

text \<open>
  \<open>generate_report\<close> (model2.py) fills the prompt template from the entities and returns
  the text of the generator, a model outside the repository.
\<close>

definition or_not_provided :: "string list \<Rightarrow> string" where
  "or_not_provided xs = (if xs \<noteq> [] then join '', '' xs else ''Not Provided'')"

definition report_prompt :: "entities \<Rightarrow> string" where
  "report_prompt ents = join [newline_char]
     ['''',
      ''    Candidate Report'',
      '''',
      ''    Name: '' @ (if name ents \<noteq> [] then hd (name ents) else ''Not Provided''),
      ''    Qualifications: '' @ or_not_provided (education ents),
      ''    Experience: '' @ or_not_provided (organization ents),
      ''    Skills: '' @ or_not_provided (skills ents),
      '''',
      ''    Summarize the above information in a professional tone for HR review, focusing on qualifications, experience, and skills.'',
      ''    '']"

definition generate_report :: "(string \<Rightarrow> string) \<Rightarrow> entities \<Rightarrow> string" where
  "generate_report generator ents = generator (report_prompt ents)"

definition system_content :: string where
  \<open>system_content = concat
     [''You are an expert HR AI assistant specializing in bias-free resume screening. '',
      ''Your task is to extract and summarize ONLY objective, professional information '',
      ''from resumes: qualifications, experience, and skills. It is IMPERATIVE that you '',
      ''COMPLETELY OMIT any and all personal or demographic details that could '',
      ''introduce bias. Maintain a strictly professional, neutral, and concise tone. '',
      ''Your output should be a clear, structured report.'']\<close>

definition user_prefix :: string where
  \<open>user_prefix = join [newline_char]
     ['''',
      ''        Analyze the following resume content and provide a summary for HR review.'',
      '''',
      ''        STRICT EXCLUSION RULES (Do NOT include these under ANY circumstances):'',
      ''        - Candidate's Name (first, last, full names, initials, nicknames).'',
      ''        - Any personal identifying information.'',
      ''        - Gender (pronouns like he/she, or terms like male/female, woman/man, etc.).'',
      ''        - Age, Date of Birth, or any age-related references (e.g., "graduated in X", "born in 19XX").'',
      ''        - Ethnicity, Race, Religion, or Nationality.'',
      ''        - Marital Status or family information.'',
      ''        - Contact information (email, phone number, physical address, personal social media links, personal websites).'',
      ''        - Photos or image descriptions.'',
      ''        - Any political affiliations, non-professional awards, or hobbies.'',
      ''        - Any information that is not directly related to professional qualifications, experience, or demonstrable skills.'',
      '''',
      ''        Focus ONLY on the following professional categories:'',
      ''        - Academic Qualifications (degrees, institutions, major fields).'',
      ''        - Work Experience (company names, job titles, key responsibilities, quantifiable achievements/impact).'',
      ''        - Technical and Professional Skills (programming languages, software, tools, methodologies, and relevant professional soft skills like problem-solving, communication, teamwork).'',
      '''',
      ''        Format the report clearly with distinct headings: "Qualifications", "Experience", and "Skills". Use bullet points or clear paragraphs.'',
      '''',
      ''        Resume Content:'',
      ''        '']\<close>

definition user_suffix :: string where
  \<open>user_suffix = join [newline_char]
     ['''',
      '''',
      ''        Candidate Report (Bias-Free):'',
      ''        '']\<close>

text \<open>
  \<open>generate_llama_report\<close> (backend/app.py). The globals \<open>model_loaded\<close>, \<open>tokenizer\<close> and
  \<open>model\<close> are the record \<open>llama\<close>: \<open>chat_generate\<close> stands for the calls of the \<open>try\<close>
  block up to \<open>batch_decode(...)[0]\<close> (chat template, tokenizer, \<open>model.generate\<close>, decoding),
  which either raise or give the decoded text.
\<close>

record llama =
  model_loaded :: bool
  eos_token :: string
  chat_generate :: "(string \<times> str) list \<Rightarrow> py_exn + string"

definition messages :: "str \<Rightarrow> (string \<times> str) list" where
  "messages resume_text =
     [(''system'', ascii system_content),
      (''user'', ascii user_prefix @ resume_text @ ascii user_suffix)]"

definition generate_llama_report :: "llama \<Rightarrow> str \<Rightarrow> py_exn + string" where
  "generate_llama_report m resume_text =
     (if \<not> model_loaded m then Inl (RuntimeError ''LLaMA model not loaded.'')
      else
        (case chat_generate m (messages resume_text) of
           Inl e \<Rightarrow> Inl (RuntimeError (''Failed to generate report: '' @ str_exn e))
         | Inr generated_report \<Rightarrow> Inr (strip (replace generated_report (eos_token m) ''''))))"

section \<open>Pipeline Orchestrators\<close>

text \<open>
  \<open>process_resume\<close> of model2.py: read, filter, extract, generate, write the report to
  \<open>output_path\<close>, return it. No exception is handled: what \<open>docx.Document\<close> raises leaves
  the function, and so does what \<open>open(output_path, "w")\<close> or \<open>f.write\<close> raises, after the
  report has been generated. Opening and writing the file are operations of the operating
  system: \<open>write_text\<close> takes the state of the file system, the path and the content, and
  gives the new state or the exception.
\<close>

record models =
  ner_pipeline :: "str \<Rightarrow> ner_result list"
  nlp_sents :: "str \<Rightarrow> string list"
  list_set :: "string list \<Rightarrow> string list"
  generator :: "string \<Rightarrow> string"

definition process_resume ::
  "(nat \<Rightarrow> bool) \<Rightarrow> models \<Rightarrow> (string \<Rightarrow> py_exn + document)
    \<Rightarrow> ('fs \<Rightarrow> string \<Rightarrow> string \<Rightarrow> py_exn + 'fs) \<Rightarrow> 'fs \<Rightarrow> string \<Rightarrow> string
    \<Rightarrow> py_exn + (string \<times> 'fs)"
where
  "process_resume w ms Document write_text fs file_path output_path =
     (case Document file_path of
        Inl e \<Rightarrow> Inl e
      | Inr doc \<Rightarrow>
          (let text = read_docx doc;
               cleaned_text = remove_sensitive_info w text;
               ents = extract_entities (ner_pipeline ms) (nlp_sents ms) (list_set ms) cleaned_text;
               report = generate_report (generator ms) ents
           in (case write_text fs output_path report of
                 Inl e \<Rightarrow> Inl e
               | Inr fs' \<Rightarrow> Inr (report, fs'))))"

text \<open>
  The four lists that \<open>extract_entities\<close> collects before it removes duplicates: names,
  organizations, skills, education.
\<close>

definition collected_lists ::
  "('t \<Rightarrow> ner_result list) \<Rightarrow> ('t \<Rightarrow> string list) \<Rightarrow> 't \<Rightarrow> string list list"
where
  "collected_lists ner nlp text =
     (let (names, orgs) = ner_loop (ner text) [] [] [];
          (edu, sk) = sent_loop (nlp text) [] []
      in [names, orgs, sk, edu])"

text \<open>
  \<open>process_resume\<close> of backend/app.py, the HTTP endpoint. The request body is a JSON object;
  of a value only this matters: whether it is a string, and whether it is truthy (\<open>null\<close> is
  a non-string that is not truthy). A missing key reads as \<open>None\<close>. The result is the
  response (body key, body value, status), or the exception that leaves the function.
\<close>

datatype json = JString string | JOther bool

record request =
  is_json :: bool
  fileContent :: "json option"
  fileName :: "json option"

type_synonym response = "(string \<times> string) \<times> nat"

fun truthy :: "json option \<Rightarrow> bool" where
  "truthy None = False"
| "truthy (Some (JString s)) = (s \<noteq> [])"
| "truthy (Some (JOther b)) = b"

text \<open>The body of the \<open>try\<close> block.\<close>

definition try_block ::
  "(string \<Rightarrow> py_exn + bytes) \<Rightarrow> (bytes \<Rightarrow> py_exn + document) \<Rightarrow> llama \<Rightarrow> json option
    \<Rightarrow> py_exn + string"
where
  "try_block b64decode Document m base64_file_content =
     (case (case base64_file_content of
              Some (JString s) \<Rightarrow> b64decode s
            | _ \<Rightarrow> Inl (OtherException ''TypeError'')) of
        Inl e \<Rightarrow> Inl e
      | Inr docx_bytes \<Rightarrow>
          (case read_docx_from_bytes Document docx_bytes of
             Inl e \<Rightarrow> Inl e
           | Inr raw_resume_text \<Rightarrow> generate_llama_report m raw_resume_text))"

text \<open>The \<open>except\<close> clauses, in the order written.\<close>

fun handle :: "py_exn + string \<Rightarrow> response" where
  "handle (Inr final_report) = ((''report'', final_report), 200)"
| "handle (Inl (ValueError ve)) = ((''error'', ve), 400)"
| "handle (Inl (RuntimeError re)) = ((''error'', re), 500)"
| "handle (Inl e) = ((''error'', ''An unexpected error occurred on the server.''), 500)"

definition app_process_resume ::
  "(string \<Rightarrow> py_exn + bytes) \<Rightarrow> (bytes \<Rightarrow> py_exn + document) \<Rightarrow> llama \<Rightarrow> request
    \<Rightarrow> py_exn + response"
where
  "app_process_resume b64decode Document m req =
     (if \<not> is_json req then Inr ((''error'', ''Request must be JSON''), 400)
      else if \<not> truthy (fileContent req) then Inr ((''error'', ''No file content provided''), 400)
      else
        (case fileName req of
           Some (JString file_name) \<Rightarrow>
             if \<not> endswith file_name ''.docx''
             then Inr ((''error'', ''Only .docx files are supported''), 400)
             else Inr (handle (try_block b64decode Document m (fileContent req)))
         | _ \<Rightarrow> Inl (AttributeError ''endswith'')))"

text \<open>Classifier outputs used as examples.\<close>

definition acme_tokens :: "ner_result list" where
  "acme_tokens = [\<lparr>entity = ''B-ORG'', word = ''Acme''\<rparr>, \<lparr>entity = ''I-ORG'', word = ''Corp''\<rparr>]"

definition two_names :: "ner_result list" where
  "two_names =
     [\<lparr>entity = ''B-PER'', word = ''Bob''\<rparr>, \<lparr>entity = ''B-ORG'', word = ''Acme''\<rparr>,
      \<lparr>entity = ''B-PER'', word = ''Al''\<rparr>, \<lparr>entity = ''B-ORG'', word = ''Initech''\<rparr>]"

text \<open>The scenario text of the specification, and a loaded model, requests and a document used as examples.\<close>

definition two_orgs :: "ner_result list" where
  "two_orgs = [\<lparr>entity = ''B-ORG'', word = ''Acme''\<rparr>, \<lparr>entity = ''B-ORG'', word = ''Initech''\<rparr>]"

definition scenario :: str where
  "scenario = ascii ''John Doe, male, age 34, worked at Acme Corp as Engineer. Skills: Java, Leadership.''"

definition loaded_echo :: llama where
  "loaded_echo =
     \<lparr>model_loaded = True, eos_token = ''<eos>'',
      chat_generate = (\<lambda>ms. if ms = messages (ascii ''male'') then Inr ''raw'' else Inr ''filtered'')\<rparr>"

definition request_no_name :: request where
  "request_no_name = \<lparr>is_json = True, fileContent = Some (JString ''UEsDBA==''), fileName = None\<rparr>"

definition request_docx :: request where
  "request_docx =
     \<lparr>is_json = True, fileContent = Some (JString ''UEsDBA==''), fileName = Some (JString ''cv.docx'')\<rparr>"

text \<open>
  Models that show which text they were given: the classifier reports whether the word
  \<open>male\<close> was in its input, the generator returns its prompt. \<open>echo_models\<close> has a
  classifier with a fixed output and takes the iteration order of sets as its argument.
\<close>

definition probe_models :: models where
  "probe_models =
     \<lparr>ner_pipeline = (\<lambda>t. [\<lparr>entity = ''B-ORG'',
                               word = (if contains t (ascii ''male'') then ''male seen''
                                       else ''male not seen'')\<rparr>]),
      nlp_sents = (\<lambda>t. []), list_set = remdups, generator = (\<lambda>prompt. prompt)\<rparr>"

definition echo_models :: "ner_result list \<Rightarrow> (string list \<Rightarrow> string list) \<Rightarrow> models" where
  "echo_models results order =
     \<lparr>ner_pipeline = (\<lambda>t. results), nlp_sents = (\<lambda>t. []), list_set = order,
      generator = (\<lambda>prompt. prompt)\<rparr>"

text \<open>A file system that accepts every write, and one that refuses every write.\<close>

definition write_ok :: "(string \<rightharpoonup> string) \<Rightarrow> string \<Rightarrow> string \<Rightarrow> py_exn + (string \<rightharpoonup> string)" where
  "write_ok fs path content = Inr (fs(path \<mapsto> content))"

definition write_fails :: "(string \<rightharpoonup> string) \<Rightarrow> string \<Rightarrow> string \<Rightarrow> py_exn + (string \<rightharpoonup> string)" where
  "write_fails fs path content = Inl (OtherException ''FileNotFoundError'')"

section \<open>Properties of the Document Reader\<close>

lemma collect_paragraphs_append: "collect_paragraphs acc doc = acc @ doc"
  by (induction doc arbitrary: acc) auto

lemma read_docx_join: "read_docx doc = join [newline] doc"
  by (simp add: read_docx_def collect_paragraphs_append)

lemma split_nl_acc_no_newline:
  "newline \<notin> set p \<Longrightarrow> split_nl_acc acc (p @ newline # rest) = (rev acc @ p) # split_nl_acc [] rest"
  by (induction p arbitrary: acc) auto

lemma split_nl_acc_last: "newline \<notin> set p \<Longrightarrow> split_nl_acc acc p = [rev acc @ p]"
  by (induction p arbitrary: acc) auto

lemma split_join:
  "ps \<noteq> [] \<Longrightarrow> \<forall>p\<in>set ps. newline \<notin> set p \<Longrightarrow> split_nl_acc [] (join [newline] ps) = ps"
proof (induction ps)
  case Nil
  then show ?case by simp
next
  case (Cons x xs)
  show ?case
  proof (cases xs)
    case Nil
    with Cons.prems show ?thesis by (simp add: split_nl_acc_last)
  next
    case (Cons y ys)
    with Cons.IH Cons.prems show ?thesis by (simp add: split_nl_acc_no_newline)
  qed
qed

text \<open>Every paragraph stands unmodified at its place in the joined text.\<close>

lemma paragraph_in_join:
  "i < length doc
    \<Longrightarrow> take (length (doc ! i)) (drop (paragraph_offset doc i) (join [newline] doc)) = doc ! i"
proof (induction doc arbitrary: i)
  case Nil
  then show ?case by simp
next
  case (Cons x xs)
  show ?case
  proof (cases i)
    case 0
    then show ?thesis
      by (cases xs) (simp_all add: paragraph_offset_def)
  next
    case (Suc j)
    with Cons.prems have j: "j < length xs" by simp
    then obtain y ys where xs: "xs = y # ys" by (cases xs) auto
    have off: "paragraph_offset (x # xs) (Suc j) = length x + 1 + paragraph_offset xs j"
      by (simp add: paragraph_offset_def)
    have "join [newline] (x # xs) = x @ newline # join [newline] xs"
      by (simp add: xs)
    then have "drop (length x + 1 + paragraph_offset xs j) (join [newline] (x # xs))
            = drop (paragraph_offset xs j) (join [newline] xs)"
      by simp
    with off have "drop (paragraph_offset (x # xs) (Suc j)) (join [newline] (x # xs))
            = drop (paragraph_offset xs j) (join [newline] xs)"
      by simp
    with Cons.IH [OF j] Suc show ?thesis by simp
  qed
qed

text \<open>
  C6. The Reader hands back the paragraph texts in document order and unmodified. For
  every document the result of \<open>read_docx\<close> is the paragraphs joined with line feeds, and
  \<open>read_docx_from_bytes\<close> gives the same text for whatever document the parser reads from
  the bytes. Paragraph \<open>i\<close> stands unmodified at its place in that text; when no paragraph
  holds a line feed itself, splitting at line feeds gives the list of paragraphs back. The
  two example paragraphs give the two strings in order. A document with no paragraph gives
  the empty text and no error, in both readers.
\<close>

theorem read_docx_roundtrip:
  "read_docx doc = join [newline] doc
   \<and> (Document docx_bytes = Inr doc \<longrightarrow>
        read_docx_from_bytes Document docx_bytes = Inr (join [newline] doc))
   \<and> (i < length doc \<longrightarrow>
        take (length (doc ! i)) (drop (paragraph_offset doc i) (read_docx doc)) = doc ! i)
   \<and> (doc \<noteq> [] \<and> (\<forall>p\<in>set doc. newline \<notin> set p) \<longrightarrow> split_nl (read_docx doc) = doc)
   \<and> read_docx [ascii ''Alice Smith'', ascii ''Skills: Python, SQL'']
       = ascii ''Alice Smith'' @ [newline] @ ascii ''Skills: Python, SQL''
   \<and> split_nl (read_docx [ascii ''Alice Smith'', ascii ''Skills: Python, SQL''])
       = [ascii ''Alice Smith'', ascii ''Skills: Python, SQL'']
   \<and> read_docx [] = []
   \<and> read_docx_from_bytes (\<lambda>b. Inr []) docx_bytes = Inr []"
proof -
  have bytes: "Document docx_bytes = Inr doc \<longrightarrow>
        read_docx_from_bytes Document docx_bytes = Inr (join [newline] doc)"
    by (simp add: read_docx_from_bytes_def read_docx_join)
  have place: "i < length doc \<longrightarrow>
        take (length (doc ! i)) (drop (paragraph_offset doc i) (read_docx doc)) = doc ! i"
    by (simp add: read_docx_join paragraph_in_join)
  have general: "doc \<noteq> [] \<and> (\<forall>p\<in>set doc. newline \<notin> set p) \<longrightarrow> split_nl (read_docx doc) = doc"
    by (simp add: split_nl_def read_docx_join split_join)
  have ex1: "read_docx [ascii ''Alice Smith'', ascii ''Skills: Python, SQL'']
       = ascii ''Alice Smith'' @ [newline] @ ascii ''Skills: Python, SQL''"
    by (simp add: read_docx_join)
  have ex2: "split_nl (read_docx [ascii ''Alice Smith'', ascii ''Skills: Python, SQL''])
       = [ascii ''Alice Smith'', ascii ''Skills: Python, SQL'']"
    by code_simp
  have e1: "read_docx [] = []"
    by (simp add: read_docx_join)
  have e2: "read_docx_from_bytes (\<lambda>b. Inr []) docx_bytes = Inr []"
    by (simp add: read_docx_from_bytes_def read_docx_join)
  from read_docx_join bytes place general ex1 ex2 e1 e2 show ?thesis by blast
qed

theorem read_docx_roundtrip_witness:
  "read_docx_from_bytes (\<lambda>b. Inr [ascii ''A b'', [], [99, newline, 100]]) [80, 75]
     = Inr (ascii ''A b'' @ [newline, newline, 99, newline, 100])
   \<and> take 3 (drop 5 (read_docx [ascii ''A b'', [], [99, newline, 100]])) = [99, newline, 100]
   \<and> split_nl (read_docx [ascii ''A b'', [], ascii ''c'']) = [ascii ''A b'', [], ascii ''c'']"
proof -
  let ?doc = "[ascii ''A b'', [], [99, newline, 100]]"
  let ?doc2 = "[ascii ''A b'', [], ascii ''c'']"
  have h1: "(\<lambda>b. Inr ?doc) [80, 75 :: nat] = (Inr ?doc :: py_exn + document)" by simp
  have h2: "(2 :: nat) < length ?doc" by simp
  have h3: "?doc2 \<noteq> [] \<and> (\<forall>p\<in>set ?doc2. newline \<notin> set p)"
    by (simp add: newline_def ascii_def)
  have j: "join [newline] ?doc = ascii ''A b'' @ [newline, newline, 99, newline, 100]"
    by simp
  have o: "paragraph_offset ?doc 2 = 5"
    by (simp add: paragraph_offset_def ascii_def)
  have a: "read_docx_from_bytes (\<lambda>b. Inr ?doc) [80, 75] = Inr (join [newline] ?doc)"
    using read_docx_roundtrip [where doc = ?doc and Document = "\<lambda>b. Inr ?doc"
        and docx_bytes = "[80, 75]"] h1 by blast
  have b: "take (length (?doc ! 2)) (drop (paragraph_offset ?doc 2) (read_docx ?doc)) = ?doc ! 2"
    using read_docx_roundtrip [where doc = ?doc and i = 2] h2 by blast
  have c: "split_nl (read_docx ?doc2) = ?doc2"
    using read_docx_roundtrip [where doc = ?doc2] h3 by blast
  from a j have a': "read_docx_from_bytes (\<lambda>b. Inr ?doc) [80, 75]
      = Inr (ascii ''A b'' @ [newline, newline, 99, newline, 100])"
    by simp
  from b o have b': "take 3 (drop 5 (read_docx ?doc)) = [99, newline, 100]"
    by (simp add: numeral_3_eq_3)
  from a' b' c show ?thesis by blast
qed

section \<open>Properties of the Sensitive-Content Filter\<close>

text \<open>What a letter of a pattern matches is a word character; what a space matches is not.\<close>

lemma word_lower: "97 \<le> c \<Longrightarrow> c \<le> 122 \<Longrightarrow> is_word_char w c"
  by (simp add: is_word_char_def latin1_word_def)

lemma word_upper: "65 \<le> c \<Longrightarrow> c \<le> 90 \<Longrightarrow> is_word_char w c"
  by (simp add: is_word_char_def latin1_word_def)

lemma word_folded: "c = 304 \<or> c = 305 \<or> c = 383 \<or> c = 8490 \<Longrightarrow> is_word_char w c"
  by (auto simp add: is_word_char_def)

lemma letter_match_word:
  assumes "is_ascii_letter k" "ci_eq k c"
  shows "is_word_char w c"
proof -
  define lo where "lo = (if 65 \<le> code k \<and> code k \<le> 90 then code k + 32 else code k)"
  from assms(1) have lo: "97 \<le> lo" "lo \<le> 122"
    unfolding is_ascii_letter_def Let_def lo_def by auto
  from assms(2) have "if 97 \<le> lo \<and> lo \<le> 122
         then c = lo \<or> c + 32 = lo \<or> (lo = 105 \<and> (c = 304 \<or> c = 305))
              \<or> (lo = 107 \<and> c = 8490) \<or> (lo = 115 \<and> c = 383)
         else c = code k"
    unfolding ci_eq_def Let_def lo_def .
  with lo consider (same) "c = lo" | (upper) "c + 32 = lo"
    | (folded) "c = 304 \<or> c = 305 \<or> c = 383 \<or> c = 8490"
    by (simp only: if_True simp_thms) blast
  then show ?thesis
  proof cases
    case same
    with lo show ?thesis by (simp add: word_lower)
  next
    case upper
    with lo have "65 \<le> c" "c \<le> 90" by arith+
    then show ?thesis by (rule word_upper)
  next
    case folded
    then show ?thesis by (rule word_folded)
  qed
qed

lemma space_match_nonword:
  assumes "ci_eq (CHR '' '') c"
  shows "\<not> is_word_char w c"
proof -
  have "code (CHR '' '') = 32" by (simp add: code_def)
  with assms have "c = 32" by (simp add: ci_eq_def Let_def)
  then show ?thesis by (simp add: is_word_char_def latin1_word_def)
qed


lemma match_literal_head:
  assumes "keyword_ok True kw" "match_literal w kw pw s = Some r"
  shows "\<exists>c cs. s = c # cs \<and> is_word_char w c"
proof (cases kw)
  case Nil
  with assms(1) show ?thesis by simp
next
  case (Cons k ks)
  with assms(1) have k: "is_ascii_letter k" by (simp split: if_splits)
  show ?thesis
  proof (cases s)
    case Nil
    with Cons assms(2) show ?thesis by simp
  next
    case (Cons c cs)
    with \<open>kw = k # ks\<close> assms(2) have "ci_eq k c" by (simp split: if_splits)
    with k have "is_word_char w c" by (rule letter_match_word)
    with Cons show ?thesis by simp
  qed
qed

lemma match_literal_end:
  "keyword_ok b kw \<Longrightarrow> pw = (\<not> b) \<Longrightarrow> match_literal w kw pw s = Some (pw', r)
    \<Longrightarrow> pw' \<and> length r \<le> length s"
proof (induction kw arbitrary: b pw s)
  case Nil
  then show ?case by simp
next
  case (Cons k ks)
  from Cons.prems(3) obtain c cs where s: "s = c # cs" by (cases s) auto
  with Cons.prems(3) have ck: "ci_eq k c"
    and rest: "match_literal w ks (is_word_char w c) cs = Some (pw', r)"
    by (auto split: if_splits)
  show ?case
  proof (cases "is_ascii_letter k")
    case True
    from True ck have "is_word_char w c" by (rule letter_match_word)
    moreover from True Cons.prems(1) have "keyword_ok False ks" by simp
    ultimately have "pw' \<and> length r \<le> length cs"
      using Cons.IH [of False "is_word_char w c" cs] rest by simp
    with s show ?thesis by simp
  next
    case False
    with Cons.prems(1) have sp: "k = CHR '' ''" and ok: "keyword_ok True ks" by simp_all
    from sp ck have "\<not> is_word_char w c" using space_match_nonword by simp
    then have "pw' \<and> length r \<le> length cs"
      using Cons.IH [of True "is_word_char w c" cs] ok rest by simp
    with s show ?thesis by simp
  qed
qed

lemma match_literal_shorter:
  "kw \<noteq> [] \<Longrightarrow> match_literal w kw pw s = Some (pw', r) \<Longrightarrow> length r < length s"
proof (induction kw arbitrary: pw s)
  case Nil
  then show ?case by simp
next
  case (Cons k ks)
  from Cons.prems(2) obtain c cs where s: "s = c # cs" by (cases s) auto
  with Cons.prems(2) have rest: "match_literal w ks (is_word_char w c) cs = Some (pw', r)"
    by (auto split: if_splits)
  show ?case
  proof (cases ks)
    case Nil
    with rest s show ?thesis by simp
  next
    case (Cons k' ks')
    with Cons.IH [of "is_word_char w c" cs] rest s show ?thesis by simp
  qed
qed

lemma match_alternative_SomeD:
  assumes "match_alternative w kw pw s = Some (pw', r)"
  shows "word_boundary w pw s \<and> match_literal w kw pw s = Some (pw', r) \<and> word_boundary w pw' r"
  using assms unfolding match_alternative_def
  by (auto split: if_splits option.splits)

lemma match_alternative_ok:
  assumes ok: "keyword_ok True kw" and m: "match_alternative w kw pw s = Some (pw', r)"
  shows "\<not> pw \<and> pw' \<and> word_boundary w True r \<and> length r < length s
         \<and> (\<exists>c cs. s = c # cs \<and> is_word_char w c)"
proof -
  from m have wb: "word_boundary w pw s" and lit: "match_literal w kw pw s = Some (pw', r)"
    and wb': "word_boundary w pw' r"
    using match_alternative_SomeD by blast+
  from ok lit obtain c cs where s: "s = c # cs" and c: "is_word_char w c"
    using match_literal_head by blast
  from wb s c have pw: "\<not> pw" by simp
  from ok have ne: "kw \<noteq> []" by auto
  from ne lit have len: "length r < length s" by (rule match_literal_shorter)
  from ok pw lit have "pw'" using match_literal_end [of True kw pw w s pw' r] by simp
  with wb' pw len s c show ?thesis by simp
qed

lemma match_pattern_SomeD:
  "match_pattern w p pw s = Some x \<Longrightarrow> \<exists>kw\<in>set p. match_alternative w kw pw s = Some x"
  by (induction p) (auto split: option.splits)

lemma match_pattern_NoneD:
  "match_pattern w p pw s = None \<Longrightarrow> kw \<in> set p \<Longrightarrow> match_alternative w kw pw s = None"
  by (induction p) (auto split: option.splits)

lemma match_pattern_ok:
  assumes ok: "pattern_ok p" and m: "match_pattern w p pw s = Some (pw', r)"
  shows "\<not> pw \<and> pw' \<and> word_boundary w True r \<and> length r < length s
         \<and> (\<exists>c cs. s = c # cs \<and> is_word_char w c)"
proof -
  from m obtain kw where kw: "kw \<in> set p" and a: "match_alternative w kw pw s = Some (pw', r)"
    using match_pattern_SomeD by blast
  from ok kw have "keyword_ok True kw" by (simp add: pattern_ok_def list_all_iff)
  then show ?thesis using a by (rule match_alternative_ok)
qed


lemma match_pattern_after_word:
  "pattern_ok p \<Longrightarrow> match_pattern w p True s = None"
  using match_pattern_ok [of p w True s] by (cases "match_pattern w p True s") auto

lemma match_pattern_nonword_head:
  "pattern_ok p \<Longrightarrow> \<not> is_word_char w c \<Longrightarrow> match_pattern w p pw (c # cs) = None"
  using match_pattern_ok [of p w pw "c # cs"] by (cases "match_pattern w p pw (c # cs)") auto

lemma match_pattern_empty:
  "pattern_ok p \<Longrightarrow> match_pattern w p pw [] = None"
  using match_pattern_ok [of p w pw "[]"] by (cases "match_pattern w p pw []") auto

lemma re_sub_hit:
  assumes "pattern_ok p" "match_pattern w p pw (c # cs) = Some (pw', r)"
  shows "re_sub w p pw (c # cs) = re_sub w p True r"
proof -
  from assms have "pw'" and "length r < length (c # cs)"
    using match_pattern_ok by blast+
  with assms(2) show ?thesis by simp
qed

lemma re_sub_miss:
  "match_pattern w p pw (c # cs) = None \<Longrightarrow> re_sub w p pw (c # cs) = c # re_sub w p (is_word_char w c) cs"
  by simp

text \<open>After a removed match the output starts with a non-word character, or is empty.\<close>

lemma re_sub_after_boundary:
  assumes "pattern_ok p" "word_boundary w True r"
  shows "re_sub w p True r = [] \<or> (\<exists>d ds. re_sub w p True r = d # ds \<and> \<not> is_word_char w d)"
proof (cases r)
  case Nil
  then show ?thesis by simp
next
  case (Cons d ds)
  with assms(2) have d: "\<not> is_word_char w d" by simp
  from assms(1) have "match_pattern w p True (d # ds) = None" by (rule match_pattern_after_word)
  then have "re_sub w p True (d # ds) = d # re_sub w p (is_word_char w d) ds" by (rule re_sub_miss)
  with Cons d show ?thesis by simp
qed

lemma match_literal_transfer:
  "pattern_ok p \<Longrightarrow> keyword_ok (\<not> pw) kw
    \<Longrightarrow> match_literal w kw pw (re_sub w p pw s) = Some (pw', r') \<Longrightarrow> word_boundary w pw' r'
    \<Longrightarrow> \<exists>r. match_literal w kw pw s = Some (pw', r) \<and> word_boundary w pw' r"
proof (induction kw arbitrary: pw s)
  case Nil
  from Nil.prems(2) have pw: "pw" by simp
  from Nil.prems(3) have eq: "pw' = pw" "r' = re_sub w p pw s" by auto
  have "word_boundary w True s"
  proof (cases s)
    case Nil
    then show ?thesis by simp
  next
    case (Cons c cs)
    from Nil.prems(1) have "match_pattern w p True (c # cs) = None" by (rule match_pattern_after_word)
    then have "re_sub w p True (c # cs) = c # re_sub w p (is_word_char w c) cs" by (rule re_sub_miss)
    with Nil.prems(4) eq pw Cons show ?thesis by simp
  qed
  with eq pw show ?case by simp
next
  case (Cons k ks)
  show ?case
  proof (cases s)
    case Nil
    with Cons.prems(3) show ?thesis by simp
  next
    case s: (Cons c cs)
    show ?thesis
    proof (cases "match_pattern w p pw (c # cs)")
      case None
      then have out: "re_sub w p pw (c # cs) = c # re_sub w p (is_word_char w c) cs" by (rule re_sub_miss)
      with Cons.prems(3) s have ck: "ci_eq k c"
        and rest: "match_literal w ks (is_word_char w c) (re_sub w p (is_word_char w c) cs) = Some (pw', r')"
        by (auto split: if_splits)
      have ok: "keyword_ok (\<not> is_word_char w c) ks"
      proof (cases "is_ascii_letter k")
        case True
        from True ck have "is_word_char w c" by (rule letter_match_word)
        with True Cons.prems(2) show ?thesis by simp
      next
        case False
        with Cons.prems(2) have "k = CHR '' ''" and "keyword_ok True ks" by simp_all
        with ck show ?thesis using space_match_nonword by simp
      qed
      from Cons.IH [OF Cons.prems(1) ok rest Cons.prems(4)]
      obtain r where "match_literal w ks (is_word_char w c) cs = Some (pw', r)" "word_boundary w pw' r"
        by blast
      with ck s show ?thesis by simp
    next
      case (Some x)
      obtain pw1 r1 where x: "x = (pw1, r1)" by (cases x)
      from Cons.prems(1) Some x have facts: "\<not> pw" "word_boundary w True r1"
        using match_pattern_ok [of p w pw "c # cs" pw1 r1] by simp_all
      from Cons.prems(1) Some x have out: "re_sub w p pw (c # cs) = re_sub w p True r1"
        using re_sub_hit by simp
      from facts(1) Cons.prems(2) have k: "is_ascii_letter k" by (simp split: if_splits)
      from re_sub_after_boundary [OF Cons.prems(1) facts(2)]
      show ?thesis
      proof
        assume "re_sub w p True r1 = []"
        with out s Cons.prems(3) show ?thesis by simp
      next
        assume "\<exists>d ds. re_sub w p True r1 = d # ds \<and> \<not> is_word_char w d"
        then obtain d ds where d: "re_sub w p True r1 = d # ds" "\<not> is_word_char w d" by blast
        with out s Cons.prems(3) have "ci_eq k d" by (auto split: if_splits)
        with k have "is_word_char w d" by (rule letter_match_word)
        with d(2) show ?thesis by simp
      qed
    qed
  qed
qed


lemma covered_after_literal:
  "match_literal w kw pw s = Some (pw', r) \<Longrightarrow> covered w pA pB pw s \<Longrightarrow> covered w pA pB pw' r"
proof (induction kw arbitrary: pw s)
  case Nil
  then show ?case by simp
next
  case (Cons k ks)
  from Cons.prems(1) obtain c cs where s: "s = c # cs" by (cases s) auto
  with Cons.prems(1) have rest: "match_literal w ks (is_word_char w c) cs = Some (pw', r)"
    by (auto split: if_splits)
  from Cons.prems(2) s have "covered w pA pB (is_word_char w c) cs" by simp
  with rest show ?case by (rule Cons.IH)
qed

lemma covered_after_match:
  assumes "match_pattern w p pw s = Some (pw', r)" "covered w pA pB pw s"
  shows "covered w pA pB pw' r"
proof -
  from assms(1) obtain kw where "match_alternative w kw pw s = Some (pw', r)"
    using match_pattern_SomeD by blast
  then have "match_literal w kw pw s = Some (pw', r)"
    using match_alternative_SomeD by blast
  then show ?thesis using assms(2) by (rule covered_after_literal)
qed

lemma covered_refl: "covered w p p pw s"
  by (induction s arbitrary: pw) (simp_all del: not_None_eq)

lemma covered_no_match: "\<not> re_search w pA pw s \<Longrightarrow> covered w pA pB pw s"
  by (induction s arbitrary: pw) (simp_all del: not_None_eq)

text \<open>
  A match at a kept position of the output is a match at the same position of the input.
\<close>

lemma match_pattern_transfer:
  assumes okA: "pattern_ok pA" and okB: "pattern_ok pB"
    and miss: "match_pattern w pB pw (c # cs) = None"
    and hit: "match_pattern w pA pw (c # re_sub w pB (is_word_char w c) cs) \<noteq> None"
  shows "match_pattern w pA pw (c # cs) \<noteq> None"
proof -
  from miss have out: "re_sub w pB pw (c # cs) = c # re_sub w pB (is_word_char w c) cs"
    by (rule re_sub_miss)
  from hit obtain pw' r' where "match_pattern w pA pw (re_sub w pB pw (c # cs)) = Some (pw', r')"
    unfolding out by (cases "match_pattern w pA pw (c # re_sub w pB (is_word_char w c) cs)") auto
  then obtain kw where kw: "kw \<in> set pA"
    and alt: "match_alternative w kw pw (re_sub w pB pw (c # cs)) = Some (pw', r')"
    using match_pattern_SomeD by blast
  from okA kw have ok: "keyword_ok True kw" by (simp add: pattern_ok_def list_all_iff)
  from ok alt have pw: "\<not> pw" using match_alternative_ok by blast
  from alt have lit: "match_literal w kw pw (re_sub w pB pw (c # cs)) = Some (pw', r')"
    and wb': "word_boundary w pw' r'" and wb: "word_boundary w pw (re_sub w pB pw (c # cs))"
    using match_alternative_SomeD by blast+
  from ok pw have ok': "keyword_ok (\<not> pw) kw" by simp
  from match_literal_transfer [OF okB ok' lit wb']
  obtain r where r: "match_literal w kw pw (c # cs) = Some (pw', r)" "word_boundary w pw' r"
    by blast
  from wb have "word_boundary w pw (c # cs)" unfolding out by simp
  with r  have m: "match_alternative w kw pw (c # cs) = Some (pw', r)"
    by (simp add: match_alternative_def)
  show ?thesis
  proof
    assume "match_pattern w pA pw (c # cs) = None"
    from this kw have "match_alternative w kw pw (c # cs) = None" by (rule match_pattern_NoneD)
    with m show False by simp
  qed
qed

lemma re_search_re_sub:
  "pattern_ok pA \<Longrightarrow> pattern_ok pB \<Longrightarrow> covered w pA pB pw s
    \<Longrightarrow> po = pw \<or> (pw \<and> \<not> po \<and> word_boundary w True s)
    \<Longrightarrow> \<not> re_search w pA po (re_sub w pB pw s)"
proof (induction s arbitrary: pw po rule: length_induct)
  case (1 s)
  note okA = "1.prems"(1) and okB = "1.prems"(2) and cov = "1.prems"(3) and ctx = "1.prems"(4)
  have IH: "\<not> re_search w pA po' (re_sub w pB pw' t)"
    if "length t < length s" "covered w pA pB pw' t"
      "po' = pw' \<or> (pw' \<and> \<not> po' \<and> word_boundary w True t)" for t pw' po'
    using "1.IH" that okA okB by blast
  show ?case
  proof (cases s)
    case Nil
    with okA show ?thesis by (simp add: match_pattern_empty)
  next
    case s: (Cons c cs)
    show ?thesis
    proof (cases "match_pattern w pB pw (c # cs)")
      case None
      then have out: "re_sub w pB pw (c # cs) = c # re_sub w pB (is_word_char w c) cs"
        by (rule re_sub_miss)
      from cov s have cov': "covered w pA pB (is_word_char w c) cs" by simp
      have tail: "\<not> re_search w pA (is_word_char w c) (re_sub w pB (is_word_char w c) cs)"
        using IH [of cs "is_word_char w c" "is_word_char w c"] s cov' by simp
      have head: "match_pattern w pA po (c # re_sub w pB (is_word_char w c) cs) = None"
      proof (cases "po = pw")
        case True
        show ?thesis
        proof (rule ccontr)
          assume "match_pattern w pA po (c # re_sub w pB (is_word_char w c) cs) \<noteq> None"
          with True have "match_pattern w pA pw (c # re_sub w pB (is_word_char w c) cs) \<noteq> None" by simp
          with okA okB None have "match_pattern w pA pw (c # cs) \<noteq> None"
            by (rule match_pattern_transfer)
          with cov s None show False by simp
        qed
      next
        case False
        with ctx s have "\<not> is_word_char w c" by auto
        with okA show ?thesis by (rule match_pattern_nonword_head)
      qed
      from head tail out s show ?thesis by simp
    next
      case (Some x)
      obtain pw1 r1 where x: "x = (pw1, r1)" by (cases x)
      from okB Some x have facts: "\<not> pw" "pw1" "word_boundary w True r1" "length r1 < length (c # cs)"
        using match_pattern_ok [of pB w pw "c # cs" pw1 r1] by simp_all
      from okB Some x have out: "re_sub w pB pw (c # cs) = re_sub w pB True r1"
        using re_sub_hit by simp
      from Some x cov s facts(2) have cov': "covered w pA pB True r1"
        using covered_after_match [of w pB pw "c # cs" pw1 r1 pA pB] by simp
      from ctx facts(1) have po: "\<not> po" by auto
      have "\<not> re_search w pA False (re_sub w pB True r1)"
        using IH [of r1 True False] s facts(3,4) cov' by simp
      with out s po show ?thesis by simp
    qed
  qed
qed

lemma sensitive_keywords_ok: "list_all pattern_ok sensitive_keywords"
  by code_simp

lemma re_sub_complete: "pattern_ok p \<Longrightarrow> \<not> re_search w p False (re_sub w p False s)"
  using re_search_re_sub [of p p w False s False] by (simp add: covered_refl)

lemma re_sub_preserves:
  "pattern_ok pA \<Longrightarrow> pattern_ok pB \<Longrightarrow> \<not> re_search w pA False s
    \<Longrightarrow> \<not> re_search w pA False (re_sub w pB False s)"
  using re_search_re_sub [of pA pB w False s False] by (simp add: covered_no_match)

lemma sub_all_preserves:
  "pattern_ok pA \<Longrightarrow> list_all pattern_ok ps \<Longrightarrow> \<not> re_search w pA False s
    \<Longrightarrow> \<not> re_search w pA False (sub_all w ps s)"
  by (induction ps arbitrary: s) (simp_all add: re_sub_preserves)

lemma sub_all_complete:
  "list_all pattern_ok ps \<Longrightarrow> list_all (\<lambda>p. \<not> re_search w p False (sub_all w ps s)) ps"
proof (induction ps arbitrary: s)
  case Nil
  then show ?case by simp
next
  case (Cons p ps)
  then have okp: "pattern_ok p" and okps: "list_all pattern_ok ps" by simp_all
  have "\<not> re_search w p False (re_sub w p False s)" using okp by (rule re_sub_complete)
  with okp okps have "\<not> re_search w p False (sub_all w ps (re_sub w p False s))"
    by (rule sub_all_preserves)
  with Cons.IH [OF okps, of "re_sub w p False s"] show ?case by simp
qed

text \<open>
  Case folding above U+00FF: \<open>mu\<close>, long s, \<open>lim\<close> is matched by \<open>muslim\<close>, and \<open>blac\<close> with
  the Kelvin sign by \<open>black\<close>; both texts are removed whole.
\<close>

lemma folded_letters_removed:
  "remove_sensitive_info w [109, 117, 383, 108, 105, 109] = []
   \<and> remove_sensitive_info w [98, 108, 97, 99, 8490] = []"
  by code_simp

text \<open>
  C1, as amended. After \<open>remove_sensitive_info\<close> no pattern of the filter's own list
  matches anywhere in the result: a search with each of the three patterns (ignoring case,
  between word boundaries, as the patterns are written) finds nothing. This holds for every
  text, whatever the table of word characters above U+00FF is. Removing a match never
  creates a new one, neither for the same pattern nor for an earlier one.
\<close>

theorem remove_sensitive_info_no_pattern_match:
  "list_all (\<lambda>pattern. \<not> re_search w pattern False (remove_sensitive_info w text)) sensitive_keywords"
  unfolding remove_sensitive_info_def
  using sensitive_keywords_ok by (rule sub_all_complete)

text \<open>
  C1, as stated, fails: the patterns match whole words only, so a keyword inside a longer
  word is kept. The text \<open>page\<close> is returned as it is, and holds the keyword \<open>age\<close> as
  a substring.
\<close>

theorem keyword_survives_counterexample:
  "remove_sensitive_info (\<lambda>c. False) (ascii ''page'') = ascii ''page''
   \<and> ci_substring ''age'' (remove_sensitive_info (\<lambda>c. False) (ascii ''page''))
   \<and> keyword_survives (remove_sensitive_info (\<lambda>c. False) (ascii ''page''))"
  by code_simp

lemma scenario_filtered:
  "remove_sensitive_info w scenario
     = ascii ''John Doe, ,  34, worked at Acme Corp as Engineer. Skills: Java, Leadership.''"
  by code_simp

text \<open>
  C3, as amended. On the scenario text the filter removes the keywords \<open>male\<close> and \<open>age\<close>
  and nothing else: the number \<open>34\<close> after \<open>age\<close> stays, with the punctuation and spaces
  around the removed words.
\<close>

theorem scenario_removes_keywords_only:
  "remove_sensitive_info w scenario
     = ascii ''John Doe, ,  34, worked at Acme Corp as Engineer. Skills: Java, Leadership.''
   \<and> \<not> contains (remove_sensitive_info w scenario) (ascii ''male'')
   \<and> \<not> contains (remove_sensitive_info w scenario) (ascii ''age'')"
  unfolding scenario_filtered by code_simp

text \<open>
  C3, as stated, fails: the filtered scenario text still holds \<open>34\<close>.
\<close>

theorem scenario_keeps_34_counterexample:
  "contains (remove_sensitive_info (\<lambda>c. False) scenario) (ascii ''34'')"
  unfolding scenario_filtered by code_simp

section \<open>Properties of the Entity Extractor\<close>

lemma set_order_remdups: "set_order remdups"
  by (simp add: set_order_def)

lemma set_order_rev_remdups: "set_order (\<lambda>xs. rev (remdups xs))"
  by (simp add: set_order_def)

lemma set_order_Nil: "set_order ls \<Longrightarrow> ls [] = []"
  by (simp add: set_order_def) (metis set_empty)

lemma ner_loop_person_run:
  "list_all is_person ys \<Longrightarrow> fst (ner_loop ys names orgs current) = names"
  by (induction ys arbitrary: names orgs current) (simp_all add: Let_def)

lemma ner_loop_trailing_persons:
  "list_all is_person ys
    \<Longrightarrow> fst (ner_loop (xs @ ys) names orgs current) = fst (ner_loop xs names orgs current)"
proof (induction xs arbitrary: names orgs current)
  case Nil
  then show ?case
    by (simp add: ner_loop_person_run)
next
  case (Cons e es)
  then show ?case
    by (simp add: Let_def)
qed

lemma name_extract_entities:
  "name (extract_entities ner nlp ls text) = take 1 (ls (fst (ner_loop (ner text) [] [] [])))"
  by (simp add: extract_entities_def split: prod.splits)

lemma organization_extract_entities:
  "organization (extract_entities ner nlp ls text) = ls (snd (ner_loop (ner text) [] [] []))"
  by (simp add: extract_entities_def split: prod.splits)

text \<open>
  C9. A merged person candidate is committed to \<open>name\<close> only when a result that is not
  person-tagged follows it. So the person-tagged results at the end of the classifier
  output add nothing: the \<open>name\<close> category is the one of the output without them; and when
  every result is person-tagged, \<open>name\<close> is empty.
\<close>

theorem trailing_person_not_committed:
  assumes "set_order ls" and "list_all is_person ys" and "ner cleaned_text = xs @ ys"
  shows "name (extract_entities ner nlp ls cleaned_text) = name (extract_entities (\<lambda>t. xs) nlp ls cleaned_text)
         \<and> (list_all is_person xs \<longrightarrow> name (extract_entities ner nlp ls cleaned_text) = [])"
proof -
  have same: "fst (ner_loop (ner cleaned_text) [] [] []) = fst (ner_loop xs [] [] [])"
    using assms(2,3) by (simp add: ner_loop_trailing_persons)
  then have first: "name (extract_entities ner nlp ls cleaned_text) = name (extract_entities (\<lambda>t. xs) nlp ls cleaned_text)"
    by (simp add: name_extract_entities)
  have "name (extract_entities ner nlp ls cleaned_text) = []" if "list_all is_person xs"
  proof -
    from that have "fst (ner_loop xs [] [] []) = []" by (rule ner_loop_person_run)
    with same assms(1) show ?thesis
      by (simp add: name_extract_entities set_order_Nil)
  qed
  with first show ?thesis by blast
qed

theorem trailing_person_not_committed_witness:
  "name (extract_entities
      (\<lambda>t. [\<lparr>entity = ''B-PER'', word = ''Ann''\<rparr>, \<lparr>entity = ''B-ORG'', word = ''Acme''\<rparr>,
            \<lparr>entity = ''B-PER'', word = ''Bob''\<rparr>, \<lparr>entity = ''I-PER'', word = ''Lee''\<rparr>])
      (\<lambda>t. []) remdups ''Ann, Acme, Bob Lee'') = [''Ann'']
   \<and> name (extract_entities
      (\<lambda>t. [\<lparr>entity = ''B-PER'', word = ''Bob''\<rparr>, \<lparr>entity = ''I-PER'', word = ''Lee''\<rparr>])
      (\<lambda>t. []) remdups ''Bob Lee'') = []"
proof -
  let ?xs = "[\<lparr>entity = ''B-PER'', word = ''Ann''\<rparr>, \<lparr>entity = ''B-ORG'', word = ''Acme''\<rparr>]"
  let ?ys = "[\<lparr>entity = ''B-PER'', word = ''Bob''\<rparr>, \<lparr>entity = ''I-PER'', word = ''Lee''\<rparr>]"
  have ys: "list_all is_person ?ys"
    by (simp add: is_person_def startswith_def)
  have a: "name (extract_entities (\<lambda>t. ?xs @ ?ys) (\<lambda>t. []) remdups ''Ann, Acme, Bob Lee'')
           = name (extract_entities (\<lambda>t. ?xs) (\<lambda>t. []) remdups ''Ann, Acme, Bob Lee'')"
    using trailing_person_not_committed [where ner = "\<lambda>t. ?xs @ ?ys"
        and cleaned_text = "''Ann, Acme, Bob Lee''" and xs = ?xs and ys = ?ys and ls = remdups
        and nlp = "\<lambda>t. []"]
      set_order_remdups ys by simp
  have b: "name (extract_entities (\<lambda>t. ?xs) (\<lambda>t. []) remdups ''Ann, Acme, Bob Lee'') = [''Ann'']"
    by code_simp
  have h3: "?ys = [] @ ?ys" by simp
  have h4: "list_all is_person ([] :: ner_result list)" by simp
  have c: "name (extract_entities (\<lambda>t. ?ys) (\<lambda>t. []) remdups ''Bob Lee'') = []"
    using trailing_person_not_committed [where ner = "\<lambda>t. ?ys" and cleaned_text = "''Bob Lee''"
        and xs = "[]" and ys = ?ys and ls = remdups and nlp = "\<lambda>t. []"]
      set_order_remdups ys h3 h4 by blast
  from a b c show ?thesis by simp
qed

text \<open>
  C5, at the failing input. For the classifier output \<open>B-ORG Acme, I-ORG Corp\<close> the loop
  appends the word of the \<open>B-ORG\<close> result alone and skips the \<open>I-ORG\<close> result, so the
  \<open>organization\<close> category is \<open>["Acme"]\<close>; merging the contiguous organization tokens, as
  the loop does for person tokens, gives \<open>["Acme Corp"]\<close>.
\<close>

theorem organization_first_token_only:
  "organization (extract_entities (\<lambda>t. acme_tokens) (\<lambda>t. []) remdups ''Acme Corp'') = [''Acme'']
   \<and> merge_spans ''ORG'' acme_tokens [] = [''Acme Corp'']"
  by code_simp

text \<open>
  C4. The \<open>name\<close> category never holds more than one entry. Which entry is kept is decided
  by the iteration order of the set, not by the text order: with the candidates \<open>Bob\<close> and
  \<open>Al\<close> committed in this order, an iteration order that lists \<open>Al\<close> first keeps \<open>Al\<close>.
\<close>

theorem name_not_first_seen:
  "length (name (extract_entities ner nlp ls cleaned_text)) \<le> 1
   \<and> set_order (\<lambda>xs. rev (remdups xs))
   \<and> name (extract_entities (\<lambda>t. two_names) (\<lambda>t. []) (\<lambda>xs. rev (remdups xs)) ''Bob, Acme, Al, Initech'')
       = [''Al'']
   \<and> merge_spans ''PER'' two_names [] = [''Bob'', ''Al'']"
proof -
  have a: "length (name (extract_entities ner nlp ls cleaned_text)) \<le> 1"
    by (simp add: name_extract_entities)
  have b: "name (extract_entities (\<lambda>t. two_names) (\<lambda>t. []) (\<lambda>xs. rev (remdups xs)) ''Bob, Acme, Al, Initech'')
       = [''Al'']"
    by code_simp
  have c: "merge_spans ''PER'' two_names [] = [''Bob'', ''Al'']"
    by code_simp
  from a b c set_order_rev_remdups show ?thesis by blast
qed


section \<open>Properties of the Report Synthesizer\<close>

text \<open>
  C7. \<open>generate_llama_report\<close> raises the model-not-loaded error exactly when
  \<open>model_loaded\<close> is false, and then whatever the generation would do (it is not called).
  When the model is loaded and the generation raises \<open>e\<close>, the error raised carries the
  message of \<open>e\<close> after the fixed prefix; a report is returned only when the generation
  returned a text.
\<close>

theorem generate_llama_report_errors:
  "((generate_llama_report m resume_text = Inl (RuntimeError ''LLaMA model not loaded.''))
      = (\<not> model_loaded m))
   \<and> (\<not> model_loaded m \<longrightarrow>
        generate_llama_report (m\<lparr>chat_generate := g\<rparr>) resume_text = generate_llama_report m resume_text)
   \<and> (model_loaded m \<and> chat_generate m (messages resume_text) = Inl e \<longrightarrow>
        generate_llama_report m resume_text
          = Inl (RuntimeError (''Failed to generate report: '' @ str_exn e)))
   \<and> (model_loaded m \<longrightarrow>
        (\<exists>r. generate_llama_report m resume_text = Inr r)
          = (\<exists>t. chat_generate m (messages resume_text) = Inr t))"
  by (auto simp: generate_llama_report_def split: sum.splits)

theorem generate_llama_report_errors_witness:
  "generate_llama_report
      \<lparr>model_loaded = False, eos_token = ''<eos>'', chat_generate = (\<lambda>ms. Inr ''report'')\<rparr> (ascii ''cv'')
     = Inl (RuntimeError ''LLaMA model not loaded.'')
   \<and> generate_llama_report
      \<lparr>model_loaded = True, eos_token = ''<eos>'',
        chat_generate = (\<lambda>ms. Inl (OtherException ''out of memory''))\<rparr> (ascii ''cv'')
     = Inl (RuntimeError ''Failed to generate report: out of memory'')"
proof -
  let ?m0 = "\<lparr>model_loaded = False, eos_token = ''<eos>'', chat_generate = (\<lambda>ms. Inr ''report'')\<rparr>"
  let ?m1 = "\<lparr>model_loaded = True, eos_token = ''<eos>'',
        chat_generate = (\<lambda>ms. Inl (OtherException ''out of memory''))\<rparr>"
  have a: "\<not> model_loaded ?m0" by simp
  have b: "model_loaded ?m1 \<and> chat_generate ?m1 (messages (ascii ''cv'')) = Inl (OtherException ''out of memory'')"
    by simp
  from generate_llama_report_errors [of ?m0 "ascii ''cv''"] a
  have r0: "generate_llama_report ?m0 (ascii ''cv'') = Inl (RuntimeError ''LLaMA model not loaded.'')"
    by blast
  from generate_llama_report_errors [of ?m1 "ascii ''cv''" _ "OtherException ''out of memory''"] b
  have r1: "generate_llama_report ?m1 (ascii ''cv'')
     = Inl (RuntimeError (''Failed to generate report: '' @ str_exn (OtherException ''out of memory'')))"
    by blast
  from r0 r1 show ?thesis by simp
qed


section \<open>Properties of the HTTP endpoint\<close>

lemma missing_fileName_escapes:
  assumes "is_json req" and "truthy (fileContent req)" and "fileName req = None"
  shows "app_process_resume b64decode Document m req = Inl (AttributeError ''endswith'')"
  using assms by (simp add: app_process_resume_def)

text \<open>
  C10, at the failing input. The request body has a non-empty \<open>fileContent\<close> and no
  \<open>fileName\<close> key. \<open>file_name.endswith\<close> raises \<open>AttributeError\<close> before the \<open>try\<close> block is
  entered, so no \<open>except\<close> clause of \<open>process_resume\<close> sees it: the exception leaves the
  function, and the function returns neither the response of the generic handler nor a
  400 response.
\<close>

theorem missing_fileName_uncaught:
  "app_process_resume (\<lambda>s. Inr []) (\<lambda>b. Inr [ascii ''male'']) loaded_echo request_no_name
     = Inl (AttributeError ''endswith'')
   \<and> app_process_resume (\<lambda>s. Inr []) (\<lambda>b. Inr [ascii ''male'']) loaded_echo request_no_name
     \<noteq> Inr ((''error'', ''An unexpected error occurred on the server.''), 500)
   \<and> handle (Inl (AttributeError ''endswith''))
     = ((''error'', ''An unexpected error occurred on the server.''), 500)"
proof -
  have "is_json request_no_name" and "truthy (fileContent request_no_name)"
    and "fileName request_no_name = None"
    by (simp_all add: request_no_name_def)
  then have "app_process_resume (\<lambda>s. Inr []) (\<lambda>b. Inr [ascii ''male'']) loaded_echo request_no_name
     = Inl (AttributeError ''endswith'')"
    by (rule missing_fileName_escapes)
  then show ?thesis by simp
qed

section \<open>Properties of the Pipeline Orchestrators\<close>

text \<open>
  C2, as amended. In the full mode (model2.py) the classifier, the sentence splitter and,
  through the prompt, the generator work on the filtered text of the document; the report
  is then written, and what the write raises leaves the function. In the lighter mode
  (backend/app.py) there is no filter: for a well-formed request the text of the document
  goes to \<open>generate_llama_report\<close> as it was read, and the loaded model gets the chat
  messages built around that text.
\<close>

theorem filter_before_model_in_full_mode_only:
  "(Document file_path = Inr doc \<longrightarrow>
      process_resume w ms Document write_text fs file_path output_path
        = (case write_text fs output_path
                  (generator ms (report_prompt
                     (extract_entities (ner_pipeline ms) (nlp_sents ms) (list_set ms)
                        (remove_sensitive_info w (read_docx doc))))) of
             Inl e \<Rightarrow> Inl e
           | Inr fs' \<Rightarrow>
               Inr (generator ms (report_prompt
                      (extract_entities (ner_pipeline ms) (nlp_sents ms) (list_set ms)
                         (remove_sensitive_info w (read_docx doc)))), fs')))
   \<and> (is_json req \<and> fileContent req = Some (JString content) \<and> content \<noteq> []
        \<and> fileName req = Some (JString file_name) \<and> endswith file_name ''.docx''
        \<and> b64decode content = Inr docx_bytes \<and> DocumentB docx_bytes = Inr docB \<longrightarrow>
      app_process_resume b64decode DocumentB m req
        = Inr (handle (generate_llama_report m (read_docx docB))))
   \<and> (model_loaded m \<longrightarrow>
      generate_llama_report m resume_text
        = (case chat_generate m
                  [(''system'', ascii system_content),
                   (''user'', ascii user_prefix @ resume_text @ ascii user_suffix)] of
             Inl e \<Rightarrow> Inl (RuntimeError (''Failed to generate report: '' @ str_exn e))
           | Inr generated_report \<Rightarrow>
               Inr (strip (replace generated_report (eos_token m) ''''))))"
  by (simp add: process_resume_def generate_report_def Let_def app_process_resume_def
      try_block_def read_docx_from_bytes_def generate_llama_report_def messages_def)

lemma probe_entities:
  "extract_entities (ner_pipeline probe_models) (nlp_sents probe_models) (list_set probe_models)
      (remove_sensitive_info (\<lambda>c. False) (read_docx [ascii ''male'']))
     = \<lparr>name = [], organization = [''male not seen''], skills = [], education = []\<rparr>"
  by code_simp

lemma probe_entities_unfiltered:
  "extract_entities (ner_pipeline probe_models) (nlp_sents probe_models) (list_set probe_models)
      (read_docx [ascii ''male''])
     = \<lparr>name = [], organization = [''male seen''], skills = [], education = []\<rparr>"
  by code_simp

theorem filter_before_model_in_full_mode_only_witness:
  "process_resume (\<lambda>c. False) probe_models (\<lambda>p. Inr [ascii ''male'']) write_ok Map.empty
      ''cv.docx'' ''out.txt''
     = Inr (report_prompt \<lparr>name = [], organization = [''male not seen''], skills = [], education = []\<rparr>,
            [''out.txt'' \<mapsto>
             report_prompt \<lparr>name = [], organization = [''male not seen''], skills = [], education = []\<rparr>])
   \<and> process_resume (\<lambda>c. False) probe_models (\<lambda>p. Inr [ascii ''male'']) write_fails Map.empty
      ''cv.docx'' ''''
     = Inl (OtherException ''FileNotFoundError'')
   \<and> report_prompt \<lparr>name = [], organization = [''male not seen''], skills = [], education = []\<rparr>
     \<noteq> report_prompt \<lparr>name = [], organization = [''male seen''], skills = [], education = []\<rparr>
   \<and> app_process_resume (\<lambda>s. Inr []) (\<lambda>b. Inr [ascii ''male'']) loaded_echo request_docx
     = Inr (handle (generate_llama_report loaded_echo (read_docx [ascii ''male''])))
   \<and> generate_llama_report loaded_echo (ascii ''male'') = Inr ''raw''"
proof -
  note inst = filter_before_model_in_full_mode_only
    [where Document = "\<lambda>p. Inr [ascii ''male'']" and file_path = "''cv.docx''"
       and doc = "[ascii ''male'']" and w = "\<lambda>c. False"
       and ms = probe_models
       and req = request_docx and content = "''UEsDBA==''" and file_name = "''cv.docx''"
       and b64decode = "\<lambda>s. Inr []" and docx_bytes = "[]"
       and DocumentB = "\<lambda>b. Inr [ascii ''male'']"
       and docB = "[ascii ''male'']" and m = loaded_echo and resume_text = "ascii ''male''"]
  have h1: "(\<lambda>p. Inr [ascii ''male'']) ''cv.docx'' = (Inr [ascii ''male''] :: py_exn + document)"
    by simp
  have h2: "is_json request_docx \<and> fileContent request_docx = Some (JString ''UEsDBA=='')
      \<and> ''UEsDBA=='' \<noteq> [] \<and> fileName request_docx = Some (JString ''cv.docx'')
      \<and> endswith ''cv.docx'' ''.docx''
      \<and> (\<lambda>s. Inr []) ''UEsDBA=='' = (Inr [] :: py_exn + bytes)
      \<and> (\<lambda>b. Inr [ascii ''male'']) ([] :: bytes) = (Inr [ascii ''male''] :: py_exn + document)"
    by (simp add: request_docx_def endswith_def)
  have h3: "model_loaded loaded_echo" by (simp add: loaded_echo_def)
  have g: "generator probe_models = (\<lambda>prompt. prompt)" by (simp add: probe_models_def)
  have a: "process_resume (\<lambda>c. False) probe_models (\<lambda>p. Inr [ascii ''male'']) write_ok Map.empty
      ''cv.docx'' ''out.txt''
     = Inr (report_prompt \<lparr>name = [], organization = [''male not seen''], skills = [], education = []\<rparr>,
            [''out.txt'' \<mapsto>
             report_prompt \<lparr>name = [], organization = [''male not seen''], skills = [], education = []\<rparr>])"
    using inst [where write_text = write_ok and fs = Map.empty and output_path = "''out.txt''"] h1
    by (simp add: probe_entities g write_ok_def)
  have a2: "process_resume (\<lambda>c. False) probe_models (\<lambda>p. Inr [ascii ''male'']) write_fails Map.empty
      ''cv.docx'' '''' = Inl (OtherException ''FileNotFoundError'')"
    using inst [where write_text = write_fails and fs = Map.empty and output_path = "''''"] h1
    by (simp add: write_fails_def)
  have a3: "report_prompt \<lparr>name = [], organization = [''male not seen''], skills = [], education = []\<rparr>
     \<noteq> report_prompt \<lparr>name = [], organization = [''male seen''], skills = [], education = []\<rparr>"
    by code_simp
  have b: "app_process_resume (\<lambda>s. Inr []) (\<lambda>b. Inr [ascii ''male'']) loaded_echo request_docx
     = Inr (handle (generate_llama_report loaded_echo (read_docx [ascii ''male''])))"
    using inst [where write_text = write_ok and fs = Map.empty and output_path = "''out.txt''"] h2
    by blast
  have "chat_generate loaded_echo [(''system'', ascii system_content),
          (''user'', ascii user_prefix @ ascii ''male'' @ ascii user_suffix)] = Inr ''raw''"
    by (simp add: loaded_echo_def messages_def)
  moreover have "strip (replace ''raw'' (eos_token loaded_echo) '''') = ''raw''"
    unfolding loaded_echo_def by code_simp
  ultimately have c: "generate_llama_report loaded_echo (ascii ''male'') = Inr ''raw''"
    using inst [where write_text = write_ok and fs = Map.empty and output_path = "''out.txt''"] h3
    by simp
  from a a2 a3 b c show ?thesis by blast
qed

text \<open>
  C2, as stated, fails in the lighter mode: for a document with the one paragraph \<open>male\<close>
  the model is called with the messages of the raw text (it answers \<open>raw\<close>), not with
  those of the filtered text, which is empty.
\<close>

theorem lighter_mode_unfiltered_counterexample:
  "app_process_resume (\<lambda>s. Inr []) (\<lambda>b. Inr [ascii ''male'']) loaded_echo request_docx
     = Inr ((''report'', ''raw''), 200)
   \<and> remove_sensitive_info (\<lambda>c. False) (read_docx [ascii ''male'']) = []
   \<and> generate_llama_report loaded_echo (remove_sensitive_info (\<lambda>c. False) (read_docx [ascii ''male'']))
     = Inr ''filtered''"
proof -
  have r: "read_docx [ascii ''male''] = ascii ''male''" by (simp add: read_docx_def)
  have f: "remove_sensitive_info (\<lambda>c. False) (ascii ''male'') = []" by code_simp
  have s1: "strip (replace ''raw'' ''<eos>'' '''') = ''raw''" by code_simp
  have s2: "strip (replace ''filtered'' ''<eos>'' '''') = ''filtered''" by code_simp
  have g1: "generate_llama_report loaded_echo (ascii ''male'') = Inr ''raw''"
    by (simp add: generate_llama_report_def loaded_echo_def s1)
  have ne: "messages [] \<noteq> messages (ascii ''male'')"
    by (simp add: messages_def ascii_def)
  have g2: "generate_llama_report loaded_echo [] = Inr ''filtered''"
    using ne by (simp add: generate_llama_report_def loaded_echo_def s2)
  have a: "app_process_resume (\<lambda>s. Inr []) (\<lambda>b. Inr [ascii ''male'']) loaded_echo request_docx
     = Inr ((''report'', ''raw''), 200)"
    by (simp add: app_process_resume_def request_docx_def endswith_def try_block_def
        read_docx_from_bytes_def r g1)
  from a r f g2 show ?thesis by simp
qed

lemma extract_entities_collected:
  "list_all (\<lambda>xs. ls2 xs = ls1 xs) (collected_lists ner nlp cleaned_text)
    \<Longrightarrow> extract_entities ner nlp ls2 cleaned_text = extract_entities ner nlp ls1 cleaned_text"
  by (simp add: extract_entities_def collected_lists_def split: prod.splits)

lemma app_process_resume_generation:
  assumes "model_loaded mB = model_loaded mA" and "eos_token mB = eos_token mA"
    and "fileContent req = Some (JString content)" and "b64decode content = Inr docx_bytes"
    and "DocumentB docx_bytes = Inr docB"
    and "chat_generate mB (messages (read_docx docB)) = chat_generate mA (messages (read_docx docB))"
  shows "app_process_resume b64decode DocumentB mB req = app_process_resume b64decode DocumentB mA req"
proof -
  have "generate_llama_report mB (read_docx docB) = generate_llama_report mA (read_docx docB)"
    unfolding generate_llama_report_def assms(1) assms(2) assms(6) ..
  then have t: "try_block b64decode DocumentB mB (fileContent req)
               = try_block b64decode DocumentB mA (fileContent req)"
    using assms(3,4,5) by (simp add: try_block_def read_docx_from_bytes_def)
  show ?thesis
    unfolding app_process_resume_def t ..
qed

text \<open>
  C8, as amended. The pipeline of model2.py is a function of the document, the models and
  the iteration order of Python sets. Two runs with the same classifier, sentence splitter
  and generator (a deterministic generation), whose set iteration orders agree on the four
  lists collected from the document, return the same report and leave the same file
  system. The pipeline of backend/app.py uses no set: two runs on the same request, whose
  generation gives the same outcome for the chat messages of the document, give the same
  response.
\<close>

theorem same_set_order_same_report:
  "(ner_pipeline msB = ner_pipeline msA \<and> nlp_sents msB = nlp_sents msA
      \<and> generator msB = generator msA \<and> Document file_path = Inr doc
      \<and> list_all (\<lambda>xs. list_set msB xs = list_set msA xs)
           (collected_lists (ner_pipeline msA) (nlp_sents msA)
              (remove_sensitive_info w (read_docx doc))) \<longrightarrow>
    process_resume w msB Document write_text fs file_path output_path
      = process_resume w msA Document write_text fs file_path output_path)
   \<and> (model_loaded mB = model_loaded mA \<and> eos_token mB = eos_token mA
      \<and> fileContent req = Some (JString content) \<and> b64decode content = Inr docx_bytes
      \<and> DocumentB docx_bytes = Inr docB
      \<and> chat_generate mB (messages (read_docx docB)) = chat_generate mA (messages (read_docx docB))
      \<longrightarrow>
    app_process_resume b64decode DocumentB mB req = app_process_resume b64decode DocumentB mA req)"
proof -
  have full: "process_resume w msB Document write_text fs file_path output_path
      = process_resume w msA Document write_text fs file_path output_path"
    if a: "ner_pipeline msB = ner_pipeline msA" "nlp_sents msB = nlp_sents msA"
      "generator msB = generator msA" "Document file_path = Inr doc"
      and l: "list_all (\<lambda>xs. list_set msB xs = list_set msA xs)
           (collected_lists (ner_pipeline msA) (nlp_sents msA)
              (remove_sensitive_info w (read_docx doc)))"
  proof -
    have e: "extract_entities (ner_pipeline msA) (nlp_sents msA) (list_set msB)
               (remove_sensitive_info w (read_docx doc))
             = extract_entities (ner_pipeline msA) (nlp_sents msA) (list_set msA)
               (remove_sensitive_info w (read_docx doc))"
      using l by (rule extract_entities_collected)
    show ?thesis
      unfolding process_resume_def Let_def a sum.case e ..
  qed
  from full app_process_resume_generation [of mB mA req content b64decode docx_bytes DocumentB docB]
  show ?thesis by blast
qed

theorem same_set_order_same_report_witness:
  "process_resume (\<lambda>c. False) (echo_models acme_tokens (\<lambda>xs. rev (remdups xs)))
      (\<lambda>p. Inr [ascii ''Acme Corp'']) write_ok Map.empty ''cv.docx'' ''out.txt''
     = process_resume (\<lambda>c. False) (echo_models acme_tokens remdups)
      (\<lambda>p. Inr [ascii ''Acme Corp'']) write_ok Map.empty ''cv.docx'' ''out.txt''
   \<and> app_process_resume (\<lambda>s. Inr []) (\<lambda>b. Inr [ascii ''male''])
        (loaded_echo\<lparr>chat_generate := (\<lambda>ms. Inr ''raw'')\<rparr>) request_docx
     = app_process_resume (\<lambda>s. Inr []) (\<lambda>b. Inr [ascii ''male'']) loaded_echo request_docx"
proof -
  let ?msa = "echo_models acme_tokens remdups"
  let ?msb = "echo_models acme_tokens (\<lambda>xs. rev (remdups xs))"
  let ?mb = "loaded_echo\<lparr>chat_generate := (\<lambda>ms. Inr ''raw'')\<rparr>"
  have h1: "ner_pipeline ?msb = ner_pipeline ?msa \<and> nlp_sents ?msb = nlp_sents ?msa
      \<and> generator ?msb = generator ?msa"
    by (simp add: echo_models_def)
  have h2: "(\<lambda>p. Inr [ascii ''Acme Corp'']) ''cv.docx'' = (Inr [ascii ''Acme Corp''] :: py_exn + document)"
    by simp
  have c: "collected_lists (ner_pipeline ?msa) (nlp_sents ?msa)
             (remove_sensitive_info (\<lambda>c. False) (read_docx [ascii ''Acme Corp'']))
           = [[], [''Acme''], [], []]"
    unfolding echo_models_def by code_simp
  have h3: "list_all (\<lambda>xs. list_set ?msb xs = list_set ?msa xs)
           (collected_lists (ner_pipeline ?msa) (nlp_sents ?msa)
              (remove_sensitive_info (\<lambda>c. False) (read_docx [ascii ''Acme Corp''])))"
    unfolding c by (simp add: echo_models_def)
  have k1: "model_loaded ?mb = model_loaded loaded_echo \<and> eos_token ?mb = eos_token loaded_echo
      \<and> fileContent request_docx = Some (JString ''UEsDBA=='')
      \<and> (\<lambda>s. Inr []) ''UEsDBA=='' = (Inr [] :: py_exn + bytes)
      \<and> (\<lambda>b. Inr [ascii ''male'']) ([] :: bytes) = (Inr [ascii ''male''] :: py_exn + document)"
    by (simp add: request_docx_def)
  have r: "read_docx [ascii ''male''] = ascii ''male''" by (simp add: read_docx_def)
  have k2: "chat_generate ?mb (messages (read_docx [ascii ''male'']))
      = chat_generate loaded_echo (messages (read_docx [ascii ''male'']))"
    unfolding r by (simp add: loaded_echo_def)
  note inst = same_set_order_same_report
    [where msB = ?msb and msA = ?msa and Document = "\<lambda>p. Inr [ascii ''Acme Corp'']"
       and file_path = "''cv.docx''" and doc = "[ascii ''Acme Corp'']" and w = "\<lambda>c. False"
       and write_text = write_ok and fs = Map.empty and output_path = "''out.txt''"
       and mB = ?mb and mA = loaded_echo and req = request_docx and content = "''UEsDBA==''"
       and b64decode = "\<lambda>s. Inr []" and docx_bytes = "[]"
       and DocumentB = "\<lambda>b. Inr [ascii ''male'']" and docB = "[ascii ''male'']"]
  from inst h1 h2 h3 k1 k2 show ?thesis by blast
qed

text \<open>
  C8, as stated, fails: the generator being deterministic is not enough. With the same
  classifier, sentence splitter and generator, two iteration orders that Python sets may
  have give two different reports for the same document: the organizations are listed
  in a different order.
\<close>

theorem report_depends_on_set_order_counterexample:
  "set_order remdups \<and> set_order (\<lambda>xs. rev (remdups xs))
   \<and> process_resume (\<lambda>c. False) (echo_models two_orgs remdups)
        (\<lambda>p. Inr [ascii ''Acme, Initech'']) (\<lambda>fs path content. Inr fs) () ''cv.docx'' ''out.txt''
      \<noteq> process_resume (\<lambda>c. False) (echo_models two_orgs (\<lambda>xs. rev (remdups xs)))
        (\<lambda>p. Inr [ascii ''Acme, Initech'']) (\<lambda>fs path content. Inr fs) () ''cv.docx'' ''out.txt''"
proof -
  have o1: "organization (extract_entities (\<lambda>t. two_orgs) (\<lambda>t. []) remdups
              (remove_sensitive_info (\<lambda>c. False) (read_docx [ascii ''Acme, Initech''])))
            = [''Acme'', ''Initech'']"
    by code_simp
  have e1: "extract_entities (\<lambda>t. two_orgs) (\<lambda>t. []) remdups
              (remove_sensitive_info (\<lambda>c. False) (read_docx [ascii ''Acme, Initech'']))
            = \<lparr>name = [], organization = [''Acme'', ''Initech''], skills = [], education = []\<rparr>"
    by code_simp
  have e2: "extract_entities (\<lambda>t. two_orgs) (\<lambda>t. []) (\<lambda>xs. rev (remdups xs))
              (remove_sensitive_info (\<lambda>c. False) (read_docx [ascii ''Acme, Initech'']))
            = \<lparr>name = [], organization = [''Initech'', ''Acme''], skills = [], education = []\<rparr>"
    by code_simp
  have ne: "report_prompt \<lparr>name = [], organization = [''Acme'', ''Initech''], skills = [], education = []\<rparr>
      \<noteq> report_prompt \<lparr>name = [], organization = [''Initech'', ''Acme''], skills = [], education = []\<rparr>"
    by code_simp
  have "process_resume (\<lambda>c. False) (echo_models two_orgs remdups)
        (\<lambda>p. Inr [ascii ''Acme, Initech'']) (\<lambda>fs path content. Inr fs) () ''cv.docx'' ''out.txt''
      \<noteq> process_resume (\<lambda>c. False) (echo_models two_orgs (\<lambda>xs. rev (remdups xs)))
        (\<lambda>p. Inr [ascii ''Acme, Initech'']) (\<lambda>fs path content. Inr fs) () ''cv.docx'' ''out.txt''"
    using ne by (simp add: process_resume_def Let_def echo_models_def generate_report_def e1 e2)
  with set_order_remdups set_order_rev_remdups show ?thesis by blast
qed

end
